theory Spec2Isabelle
  imports Main
begin

section \<open>The code-input component of src/components/CodeInput.tsx\<close>

text \<open>
  The component keeps one piece of React state, \<open>IState\<close>, and talks to two
  collaborators: the host toolkit (focus and blur requests on the per-cell input handles)
  and the application (the callbacks \<open>onFulfill\<close> and \<open>onCodeChange\<close>). Every
  handler is embedded as a function that receives

  \<^item> where it compares codes, the runtime's lower-casing function (see below),
  \<^item> the destructured props,
  \<^item> \<open>state\<close>, the value of the state the handler's closure captured at render time,
  \<^item> a \<open>world\<close>: the value the state store will have once the updaters queued so far
    are applied, and the log of the host requests and callback invocations made so far,

  and returns the new world. \<open>setState\<close> takes a functional updater, exactly as every
  call of the source does; React applies queued updaters in the order they were queued,
  each to the result of the one before, which is what composing them on \<open>store\<close> does.
  The leading underscore of the source's private names (\<open>_onFocus\<close>, \<open>_setFocus\<close>,
  ...) is dropped, since an identifier cannot start with it here.
\<close>

subsection \<open>Data\<close>

text \<open>\<open>type IState = { codeArr: string[]; currentIndex: number }\<close>\<close>

record IState =
  codeArr :: "string list"
  currentIndex :: nat

text \<open>
  The props the handlers read, after the defaults of the parameter destructuring.
  \<open>onFulfill\<close> and \<open>onCodeChange\<close> record whether
  \<open>typeof callback === "function"\<close>; \<open>ignoreCase\<close> is only ever tested for
  truthiness, so a missing value is \<open>False\<close>.
\<close>

record CodeInputProps =
  codeLength :: nat
  compareWithCode :: string
  inputPosition :: string
  ignoreCase :: bool
  onFulfill :: bool
  onCodeChange :: bool

text \<open>
  \<open>Partial<CodeInputProps>\<close>, as the caller passes it: the fields with a default
  in the destructuring may be missing.
\<close>

record PartialProps =
  codeLength_opt :: "nat option"
  compareWithCode_opt :: "string option"
  inputPosition_opt :: "string option"
  ignoreCase_opt :: "bool option"
  onFulfill_opt :: bool
  onCodeChange_opt :: bool

definition destructure :: "PartialProps \<Rightarrow> CodeInputProps" where
  "destructure pp =
     \<lparr> codeLength = (case codeLength_opt pp of None \<Rightarrow> 5 | Some n \<Rightarrow> n),
       compareWithCode = (case compareWithCode_opt pp of None \<Rightarrow> [] | Some t \<Rightarrow> t),
       inputPosition = (case inputPosition_opt pp of None \<Rightarrow> ''center'' | Some t \<Rightarrow> t),
       ignoreCase = (case ignoreCase_opt pp of None \<Rightarrow> False | Some b \<Rightarrow> b),
       onFulfill = onFulfill_opt pp,
       onCodeChange = onCodeChange_opt pp \<rparr>"

text \<open>What the component asks of the host and of the application, in the order it asks.\<close>

datatype effect =
    Focus nat
  | Blur nat
  | OnFulfill string "bool option"
  | OnCodeChange string
  | ConsoleError string

record world =
  store :: IState
  effects :: "effect list"

definition emit :: "effect \<Rightarrow> world \<Rightarrow> world" where
  "emit e w = w\<lparr>effects := effects w @ [e]\<rparr>"

definition setState :: "(IState \<Rightarrow> IState) \<Rightarrow> world \<Rightarrow> world" where
  "setState f w = w\<lparr>store := f (store w)\<rparr>"

subsection \<open>JavaScript and lodash primitives the handlers use\<close>

text \<open>
  \<open>newCodeArr[index] = character\<close>: an index past the end extends the array. The
  holes this leaves read as \<open>undefined\<close>, which \<open>join\<close>, the predicate
  \<open>!c\<close> and the rendering all treat as the empty string, so a hole is the empty string.
\<close>

definition assign :: "string list \<Rightarrow> nat \<Rightarrow> string \<Rightarrow> string list" where
  "assign xs i v =
     (if i < length xs then xs[i := v] else xs @ replicate (i - length xs) [] @ [v])"

text \<open>\<open>arr.join("")\<close>\<close>

definition join :: "string list \<Rightarrow> string" where
  "join xs = concat xs"

text \<open>\<open>_.findIndex(arr, pred)\<close>: the first index whose element satisfies \<open>pred\<close>, or -1.\<close>

fun findIndex :: "('a \<Rightarrow> bool) \<Rightarrow> 'a list \<Rightarrow> int" where
  "findIndex P [] = - 1"
| "findIndex P (x # xs) =
     (if P x then 0
      else (let r = findIndex P xs in if r = - 1 then - 1 else r + 1))"

text \<open>
  \<open>for (const i in newCodeArr) { if (+i >= index) newCodeArr[i] = ""; }\<close>, the loop
  counter \<open>i\<close> made explicit.
\<close>

fun clearFrom :: "nat \<Rightarrow> nat \<Rightarrow> string list \<Rightarrow> string list" where
  "clearFrom index i [] = []"
| "clearFrom index i (c # cs) = (if i \<ge> index then [] else c) # clearFrom index (Suc i) cs"

text \<open>
  \<open>String.prototype.toLowerCase\<close> belongs to the JavaScript runtime, not to the
  component: the handlers that reach it take it as their first argument, written
  \<open>toLowerCase\<close>, and nothing is assumed of it. Of strings the handlers use only
  equality, emptiness and concatenation.
\<close>

subsection \<open>The component\<close>

text \<open>
  \<open>useState({ codeArr: new Array(codeLength).fill(""), currentIndex: 0 })\<close>
\<close>

definition initialState :: "CodeInputProps \<Rightarrow> IState" where
  "initialState p = \<lparr> codeArr = replicate (codeLength p) [], currentIndex = 0 \<rparr>"

definition mount :: "CodeInputProps \<Rightarrow> world" where
  "mount p = \<lparr> store = initialState p, effects = [] \<rparr>"

text \<open>
  The \<open>useEffect\<close> that checks the props: both findings are logged with
  \<open>console.error\<close> and nothing else happens.
\<close>

definition checkProps :: "CodeInputProps \<Rightarrow> effect list" where
  "checkProps p =
     (if compareWithCode p \<noteq> [] \<and> length (compareWithCode p) \<noteq> codeLength p
      then [ConsoleError ''Invalid props: compareWith length is not equal to codeLength'']
      else [])
     @ (if inputPosition p \<notin> set [''center'', ''left'', ''right'', ''full-width'']
        then [ConsoleError ''Invalid input position. Must be in: center, left, right, full'']
        else [])"

text \<open>
  \<open>codeInputRefs.current?.[index]?.focus()\<close>: one handle per rendered cell, that is
  for the indices below \<open>codeLength\<close>; for any other index the optional chaining makes
  the call do nothing.
\<close>

definition setFocus :: "CodeInputProps \<Rightarrow> nat \<Rightarrow> world \<Rightarrow> world" where
  "setFocus p index w = (if index < codeLength p then emit (Focus index) w else w)"

definition blur :: "CodeInputProps \<Rightarrow> nat \<Rightarrow> world \<Rightarrow> world" where
  "blur p index w = (if index < codeLength p then emit (Blur index) w else w)"

definition clear :: "CodeInputProps \<Rightarrow> world \<Rightarrow> world" where
  "clear p w =
     setFocus p 0
       (setState (\<lambda>s. s\<lparr>codeArr := replicate (codeLength p) [], currentIndex := 0\<rparr>) w)"

definition onFocus :: "CodeInputProps \<Rightarrow> IState \<Rightarrow> nat \<Rightarrow> world \<Rightarrow> world" where
  "onFocus p state index w =
     (let newCodeArr = codeArr state;
          currentEmptyIndex = findIndex (\<lambda>c. c = []) newCodeArr
      in if currentEmptyIndex \<noteq> - 1 \<and> currentEmptyIndex < int index
         then setFocus p (nat currentEmptyIndex) w
         else setState (\<lambda>s. s\<lparr>codeArr := clearFrom index 0 newCodeArr,
                                currentIndex := index\<rparr>) w)"

definition isMatchingCode ::
  "(string \<Rightarrow> string) \<Rightarrow> string \<Rightarrow> string \<Rightarrow> bool \<Rightarrow> bool" where
  "isMatchingCode toLowerCase code compareCode isIgnoreCase =
     (if isIgnoreCase then toLowerCase code = toLowerCase compareCode
      else code = compareCode)"

definition onKeyPress :: "CodeInputProps \<Rightarrow> IState \<Rightarrow> string \<Rightarrow> world \<Rightarrow> world" where
  "onKeyPress p state key w =
     (if key = ''Backspace'' then
        (let nextIndex = (if currentIndex state > 0 then currentIndex state - 1 else 0);
             newCodeArr = clearFrom nextIndex 0 (codeArr state);
             w1 = (if onCodeChange p then emit (OnCodeChange (join newCodeArr)) w else w)
         in setFocus p nextIndex w1)
      else w)"

definition onInputCode ::
  "(string \<Rightarrow> string) \<Rightarrow> CodeInputProps \<Rightarrow> IState \<Rightarrow> string \<Rightarrow> nat \<Rightarrow> world
     \<Rightarrow> world" where
  "onInputCode toLowerCase p state character index w =
     (let newCodeArr = assign (codeArr state) index character;
          w1 =
            (if int index = int (codeLength p) - 1 then
               (let code = join newCodeArr;
                    w2 =
                      (if compareWithCode p \<noteq> [] then
                         (let isMatching =
                                isMatchingCode toLowerCase code (compareWithCode p) (ignoreCase p);
                              w3 = (if onFulfill p
                                    then emit (OnFulfill code (Some isMatching)) w else w)
                          in if \<not> isMatching then clear p w3 else w3)
                       else (if onFulfill p then emit (OnFulfill code None) w else w))
                in blur p (currentIndex state) w2)
             else setFocus p (currentIndex state + 1) w);
          w4 = setState (\<lambda>prevState. prevState\<lparr>codeArr := newCodeArr,
                                     currentIndex := currentIndex prevState + 1\<rparr>) w1
      in if onCodeChange p then emit (OnCodeChange (join newCodeArr)) w4 else w4)"

subsection \<open>Events\<close>

text \<open>
  What reaches the component: the host's focus-gained, text-changed and key-press events
  of a cell, and a call of \<open>clear\<close>. An event is handled by the handlers of the latest
  render, whose \<open>state\<close> is the store with every earlier update applied.
\<close>

datatype event =
    FocusGained nat
  | ChangeText string nat
  | KeyPress string
  | Clear

fun handle ::
  "(string \<Rightarrow> string) \<Rightarrow> CodeInputProps \<Rightarrow> IState \<Rightarrow> event \<Rightarrow> world \<Rightarrow> world" where
  "handle toLowerCase p state (FocusGained index) w = onFocus p state index w"
| "handle toLowerCase p state (ChangeText text index) w =
     onInputCode toLowerCase p state text index w"
| "handle toLowerCase p state (KeyPress key) w = onKeyPress p state key w"
| "handle toLowerCase p state Clear w = clear p w"

definition fire ::
  "(string \<Rightarrow> string) \<Rightarrow> CodeInputProps \<Rightarrow> event \<Rightarrow> world \<Rightarrow> world" where
  "fire toLowerCase p ev w = handle toLowerCase p (store w) ev w"

fun run ::
  "(string \<Rightarrow> string) \<Rightarrow> CodeInputProps \<Rightarrow> event list \<Rightarrow> world \<Rightarrow> world" where
  "run toLowerCase p [] w = w"
| "run toLowerCase p (ev # evs) w = run toLowerCase p evs (fire toLowerCase p ev w)"

subsection \<open>Notions the properties are stated with\<close>

text \<open>Typing the strings \<open>cs\<close> one per cell, in order, starting at cell \<open>k\<close>.\<close>

fun typeInOrder :: "nat \<Rightarrow> string list \<Rightarrow> event list" where
  "typeInOrder k [] = []"
| "typeInOrder k (c # cs) = ChangeText c k # typeInOrder (Suc k) cs"

fun isOnFulfill :: "effect \<Rightarrow> bool" where
  "isOnFulfill (OnFulfill code m) = True"
| "isOnFulfill e = False"

fun isOnCodeChange :: "effect \<Rightarrow> bool" where
  "isOnCodeChange (OnCodeChange code) = True"
| "isOnCodeChange e = False"

fun isCallback :: "effect \<Rightarrow> bool" where
  "isCallback (OnFulfill code m) = True"
| "isCallback (OnCodeChange code) = True"
| "isCallback e = False"

fun isHostRequest :: "effect \<Rightarrow> bool" where
  "isHostRequest (Focus i) = True"
| "isHostRequest (Blur i) = True"
| "isHostRequest e = False"

text \<open>
  The cursor invariant of the data model: the focus index is the index of a cell, the
  cells before it are filled and the cells from it on are empty.
\<close>

definition partitioned :: "CodeInputProps \<Rightarrow> IState \<Rightarrow> bool" where
  "partitioned p s =
     (currentIndex s < codeLength p \<and> length (codeArr s) = codeLength p
      \<and> list_all (\<lambda>c. c \<noteq> []) (take (currentIndex s) (codeArr s))
      \<and> list_all (\<lambda>c. c = []) (drop (currentIndex s) (codeArr s)))"

text \<open>The state a completed entry leaves: every cell filled, the focus index past the last cell.\<close>

definition completed :: "CodeInputProps \<Rightarrow> IState \<Rightarrow> bool" where
  "completed p s =
     (currentIndex s = codeLength p \<and> length (codeArr s) = codeLength p
      \<and> list_all (\<lambda>c. c \<noteq> []) (codeArr s))"

text \<open>The last event of \<open>evs\<close> was a text change of the last cell.\<close>

definition lastCellJustFilled :: "CodeInputProps \<Rightarrow> event list \<Rightarrow> bool" where
  "lastCellJustFilled p evs =
     (case rev evs of
        ChangeText c i # rest \<Rightarrow> int i = int (codeLength p) - 1
      | _ \<Rightarrow> False)"

text \<open>Every event of \<open>evs\<close> that names a cell names one of the rendered cells.\<close>

fun onCell :: "CodeInputProps \<Rightarrow> event \<Rightarrow> bool" where
  "onCell p (FocusGained index) = (index < codeLength p)"
| "onCell p (ChangeText text index) = (index < codeLength p)"
| "onCell p ev = True"

text \<open>
  The events of an orderly session: a focus on a rendered cell; a non-empty text typed
  into the cell the focus index names, where a text completing the code does not fail
  the comparison; any key press; a call of \<open>clear\<close>.
\<close>

fun orderly ::
  "(string \<Rightarrow> string) \<Rightarrow> CodeInputProps \<Rightarrow> IState \<Rightarrow> event \<Rightarrow> bool" where
  "orderly toLowerCase p s (FocusGained index) = (index < codeLength p)"
| "orderly toLowerCase p s (ChangeText text index) =
     (text \<noteq> [] \<and> index = currentIndex s \<and> index < codeLength p
      \<and> (if Suc index = codeLength p \<and> compareWithCode p \<noteq> []
         then isMatchingCode toLowerCase (join (assign (codeArr s) index text))
                (compareWithCode p) (ignoreCase p)
         else True))"
| "orderly toLowerCase p s (KeyPress key) = True"
| "orderly toLowerCase p s Clear = True"

fun orderlyRun ::
  "(string \<Rightarrow> string) \<Rightarrow> CodeInputProps \<Rightarrow> world \<Rightarrow> event list \<Rightarrow> bool" where
  "orderlyRun toLowerCase p w [] = True"
| "orderlyRun toLowerCase p w (ev # evs) =
     (orderly toLowerCase p (store w) ev
      \<and> orderlyRun toLowerCase p (fire toLowerCase p ev w) evs)"

text \<open>
  Since the code was last completed, that is since the last text change of the last
  cell, only key presses were handled.
\<close>

fun isKeyPress :: "event \<Rightarrow> bool" where
  "isKeyPress (KeyPress key) = True"
| "isKeyPress ev = False"

definition keysOnlySinceCompletion :: "CodeInputProps \<Rightarrow> event list \<Rightarrow> bool" where
  "keysOnlySinceCompletion p evs =
     (case dropWhile isKeyPress (rev evs) of
        ChangeText c i # rest \<Rightarrow> Suc i = codeLength p
      | _ \<Rightarrow> False)"

text \<open>
  What typing the strings \<open>cs\<close> in order into the cells after the filled prefix
  \<open>pre\<close> asks of the host and the application, as long as the last cell is not reached.
\<close>

fun typingTrace :: "CodeInputProps \<Rightarrow> string list \<Rightarrow> string list \<Rightarrow> effect list" where
  "typingTrace p pre [] = []"
| "typingTrace p pre (c # cs) =
     Focus (Suc (length pre))
     # (if onCodeChange p then [OnCodeChange (join (pre @ [c]))] else [])
     @ typingTrace p (pre @ [c]) cs"

text \<open>
  For the concrete runs: props with both callbacks supplied and the default position,
  and a lower-casing function that folds the letters A to Z and leaves every other
  character, which is what the runtime's function does to a string of ASCII characters.
\<close>

definition asciiLowerChar :: "char \<Rightarrow> char" where
  "asciiLowerChar c =
     (case map_of (zip ''ABCDEFGHIJKLMNOPQRSTUVWXYZ'' ''abcdefghijklmnopqrstuvwxyz'') c of
        None \<Rightarrow> c
      | Some l \<Rightarrow> l)"

definition asciiLower :: "string \<Rightarrow> string" where
  "asciiLower s = map asciiLowerChar s"

definition exampleProps :: "nat \<Rightarrow> string \<Rightarrow> bool \<Rightarrow> CodeInputProps" where
  "exampleProps n target ic =
     \<lparr> codeLength = n, compareWithCode = target, inputPosition = ''center'',
       ignoreCase = ic, onFulfill = True, onCodeChange = True \<rparr>"
section \<open>Facts about the primitives\<close>

lemma clearFrom_length: "length (clearFrom index i cs) = length cs"
  by (induction cs arbitrary: i) simp_all

lemma clearFrom_take: "clearFrom index i cs = take (index - i) cs @ replicate (length cs - (index - i)) []"
proof (induction cs arbitrary: i)
  case Nil
  then show ?case by simp
next
  case (Cons c cs)
  show ?case
  proof (cases "index \<le> i")
    case True
    then show ?thesis using Cons[of "Suc i"] by (simp add: replicate_Suc[symmetric] del: replicate_Suc)
  next
    case False
    then have "index - i = Suc (index - Suc i)" by simp
    then show ?thesis using False Cons[of "Suc i"] by simp
  qed
qed

lemma clearFrom_0: "clearFrom index 0 cs = take index cs @ replicate (length cs - index) []"
  using clearFrom_take[of index 0 cs] by simp

lemma findIndex_none: "\<forall>x\<in>set xs. \<not> P x \<Longrightarrow> findIndex P xs = - 1"
  by (induction xs) simp_all

lemma findIndex_first:
  "j < length xs \<Longrightarrow> P (xs ! j) \<Longrightarrow> \<forall>i<j. \<not> P (xs ! i) \<Longrightarrow> findIndex P xs = int j"
proof (induction xs arbitrary: j)
  case Nil
  then show ?case by simp
next
  case (Cons x xs)
  show ?case
  proof (cases j)
    case 0
    with Cons.prems show ?thesis by simp
  next
    case (Suc k)
    with Cons.prems have nx: "\<not> P x" by auto
    from Suc Cons.prems have "findIndex P xs = int k"
      by (intro Cons.IH) auto
    with nx Suc show ?thesis by simp
  qed
qed

lemma findIndex_found:
  "findIndex P xs \<noteq> - 1 \<Longrightarrow>
     0 \<le> findIndex P xs \<and> nat (findIndex P xs) < length xs \<and> P (xs ! nat (findIndex P xs))"
proof (induction xs)
  case Nil
  then show ?case by simp
next
  case (Cons x xs)
  show ?case
  proof (cases "P x")
    case True
    then show ?thesis by simp
  next
    case False
    with Cons.prems have r: "findIndex P xs \<noteq> - 1" by (auto simp: Let_def split: if_splits)
    from Cons.IH[OF r] have ih: "0 \<le> findIndex P xs" "nat (findIndex P xs) < length xs"
      "P (xs ! nat (findIndex P xs))" by auto
    have "nat (findIndex P xs + 1) = Suc (nat (findIndex P xs))" using ih(1) by simp
    with False r ih show ?thesis by (simp add: Let_def)
  qed
qed

lemma findIndex_not_before:
  assumes "\<forall>j<k. j < length xs \<longrightarrow> \<not> P (xs ! j)"
  shows "\<not> (findIndex P xs \<noteq> - 1 \<and> findIndex P xs < int k)"
proof
  assume a: "findIndex P xs \<noteq> - 1 \<and> findIndex P xs < int k"
  then have f: "0 \<le> findIndex P xs" "nat (findIndex P xs) < length xs"
    "P (xs ! nat (findIndex P xs))"
    using findIndex_found[of P xs] by auto
  from a f(1) have "nat (findIndex P xs) < k" by simp
  with assms f(2,3) show False by blast
qed

lemma join_replicate_empty: "join (xs @ replicate n []) = join xs"
  by (induction n) (simp_all add: join_def)

lemma join_nonempty: "join xs = join (filter (\<lambda>c. c \<noteq> []) xs)"
  by (induction xs) (simp_all add: join_def)

lemma join_skips_empty: "join xs = concat (filter (\<lambda>c. c \<noteq> []) xs)"
  by (induction xs) (simp_all add: join_def)

lemma assign_after_prefix:
  "0 < n \<Longrightarrow> assign (pre @ replicate n []) (length pre) c = pre @ c # replicate (n - 1) []"
  by (cases n) (simp_all add: assign_def)

lemma run_append: "run lower p (evs @ evs') w = run lower p evs' (run lower p evs w)"
  by (induction evs arbitrary: w) simp_all

lemma typeInOrder_snoc: "typeInOrder k (cs @ [c]) = typeInOrder k cs @ [ChangeText c (k + length cs)]"
  by (induction cs arbitrary: k) simp_all

section \<open>What one event does\<close>

lemmas handler_defs =
  onInputCode_def onFocus_def onKeyPress_def clear_def setFocus_def blur_def
  emit_def setState_def fire_def Let_def

text \<open>A text change of a cell that is not the last one, made at the focus index.\<close>

lemma fire_ChangeText_inner:
  assumes "Suc i < codeLength p" and "currentIndex (store w) = i"
  shows "fire lower p (ChangeText c i) w =
           \<lparr> store = \<lparr> codeArr = assign (codeArr (store w)) i c, currentIndex = Suc i \<rparr>,
             effects = effects w @ Focus (Suc i)
                       # (if onCodeChange p
                          then [OnCodeChange (join (assign (codeArr (store w)) i c))] else []) \<rparr>"
  using assms by (simp add: handler_defs)

text \<open>
  A text change of the last cell, after the cells before it were typed in order: the
  code is accepted when there is no comparison target or the comparison succeeds.
\<close>

lemma fire_ChangeText_last_accept:
  assumes "codeLength p = Suc (length cs)"
    and "store w = \<lparr> codeArr = cs @ [[]], currentIndex = length cs \<rparr>"
    and "compareWithCode p \<noteq> [] \<Longrightarrow> isMatchingCode lower (join (cs @ [c])) (compareWithCode p) (ignoreCase p)"
  shows "fire lower p (ChangeText c (length cs)) w =
           \<lparr> store = \<lparr> codeArr = cs @ [c], currentIndex = Suc (length cs) \<rparr>,
             effects = effects w
               @ (if onFulfill p
                  then [OnFulfill (join (cs @ [c]))
                          (if compareWithCode p = [] then None else Some True)]
                  else [])
               @ Blur (length cs)
               # (if onCodeChange p then [OnCodeChange (join (cs @ [c]))] else []) \<rparr>"
  using assms by (simp add: handler_defs assign_def)

text \<open>
  The same text change when the comparison fails. \<open>clear\<close> queues its reset first
  and the handler's own updater is queued after it, so the store ends with the cells
  just typed and the focus index one past the 0 that \<open>clear\<close> had set.
\<close>

lemma fire_ChangeText_last_mismatch:
  assumes "codeLength p = Suc (length cs)"
    and "store w = \<lparr> codeArr = cs @ [[]], currentIndex = length cs \<rparr>"
    and "compareWithCode p \<noteq> []"
    and "\<not> isMatchingCode lower (join (cs @ [c])) (compareWithCode p) (ignoreCase p)"
  shows "fire lower p (ChangeText c (length cs)) w =
           \<lparr> store = \<lparr> codeArr = cs @ [c], currentIndex = 1 \<rparr>,
             effects = effects w
               @ (if onFulfill p then [OnFulfill (join (cs @ [c])) (Some False)] else [])
               @ Focus 0 # Blur (length cs)
               # (if onCodeChange p then [OnCodeChange (join (cs @ [c]))] else []) \<rparr>"
  using assms by (simp add: handler_defs assign_def)

lemma store_fire_ChangeText_accept:
  assumes "\<not> (Suc i = codeLength p \<and> compareWithCode p \<noteq> []
              \<and> \<not> isMatchingCode lower (join (assign (codeArr (store w)) i c))
                     (compareWithCode p) (ignoreCase p))"
  shows "store (fire lower p (ChangeText c i) w)
           = \<lparr> codeArr = assign (codeArr (store w)) i c,
               currentIndex = Suc (currentIndex (store w)) \<rparr>"
proof -
  have eq: "(int i = int (codeLength p) - 1) = (Suc i = codeLength p)" by auto
  show ?thesis using assms unfolding fire_def handle.simps onInputCode_def eq
    by (auto simp: Let_def setFocus_def blur_def emit_def setState_def clear_def)
qed

lemma fire_ChangeText_reports:
  "filter isOnCodeChange (effects (fire lower p (ChangeText c i) w))
     = filter isOnCodeChange (effects w)
       @ (if onCodeChange p then [OnCodeChange (join (assign (codeArr (store w)) i c))] else [])"
  by (simp add: handler_defs)

lemma fire_ChangeText_codeArr:
  "codeArr (store (fire lower p (ChangeText c i) w)) = assign (codeArr (store w)) i c"
  by (simp add: handler_defs)

lemma fire_Backspace:
  "fire lower p (KeyPress ''Backspace'') w =
     w\<lparr> effects := effects w
          @ (if onCodeChange p
             then [OnCodeChange (join (clearFrom (currentIndex (store w) - 1) 0 (codeArr (store w))))]
             else [])
          @ (if currentIndex (store w) - 1 < codeLength p
             then [Focus (currentIndex (store w) - 1)] else []) \<rparr>"
  by (simp add: handler_defs)

lemma focus_step_redirects:
  assumes "length (codeArr (store w)) = codeLength p"
    and "j < k" and "j < codeLength p" and "codeArr (store w) ! j = []"
    and "\<forall>i<j. codeArr (store w) ! i \<noteq> []"
  shows "fire lower p (FocusGained k) w = w\<lparr>effects := effects w @ [Focus j]\<rparr>"
proof -
  have "findIndex (\<lambda>c. c = []) (codeArr (store w)) = int j"
    using assms by (intro findIndex_first) auto
  with assms(2,3) show ?thesis by (simp add: handler_defs)
qed

lemma focus_step_clears:
  assumes "length (codeArr (store w)) = codeLength p"
    and "\<forall>j<k. j < codeLength p \<longrightarrow> codeArr (store w) ! j \<noteq> []"
  shows "fire lower p (FocusGained k) w
           = w\<lparr>store := \<lparr> codeArr = take k (codeArr (store w)) @ replicate (codeLength p - k) [],
                             currentIndex = k \<rparr>\<rparr>"
proof -
  have "\<not> (findIndex (\<lambda>c. c = []) (codeArr (store w)) \<noteq> - 1
           \<and> findIndex (\<lambda>c. c = []) (codeArr (store w)) < int k)"
    using assms by (intro findIndex_not_before) simp
  then show ?thesis using assms(1) by (auto simp: handler_defs clearFrom_0)
qed

text \<open>
  The lower-casing function is reached only when \<open>ignoreCase\<close> is set: without it
  every run is the same whatever the function is, so the concrete runs below that have
  \<open>ignoreCase\<close> off and are written with \<open>asciiLower\<close> are runs of the component
  under the runtime's own function as well.
\<close>

lemma onInputCode_lower_irrelevant:
  assumes "\<not> ignoreCase p"
  shows "onInputCode lower p state c i w = onInputCode lower' p state c i w"
  using assms by (simp add: onInputCode_def isMatchingCode_def Let_def)

lemma fire_lower_irrelevant:
  assumes "\<not> ignoreCase p"
  shows "fire lower p ev w = fire lower' p ev w"
  by (cases ev) (simp_all add: fire_def onInputCode_lower_irrelevant[OF assms, of lower _ _ _ _ lower'])

lemma run_lower_irrelevant:
  assumes "\<not> ignoreCase p"
  shows "run lower p evs w = run lower' p evs w"
  by (induction evs arbitrary: w) (simp_all add: fire_lower_irrelevant[OF assms, of lower _ _ lower'])

section \<open>Typing a code in order\<close>

lemma run_typeInOrder_inner:
  assumes "length pre + length cs < codeLength p"
    and "codeArr (store w) = pre @ replicate (codeLength p - length pre) []"
    and "currentIndex (store w) = length pre"
  shows "run lower p (typeInOrder (length pre) cs) w =
           \<lparr> store = \<lparr> codeArr = pre @ cs @ replicate (codeLength p - length pre - length cs) [],
                         currentIndex = length pre + length cs \<rparr>,
             effects = effects w @ typingTrace p pre cs \<rparr>"
  using assms
proof (induction cs arbitrary: pre w)
  case Nil
  then show ?case by simp
next
  case (Cons c cs)
  let ?w = "fire lower p (ChangeText c (length pre)) w"
  have inner: "Suc (length pre) < codeLength p" using Cons.prems(1) by simp
  have arr: "assign (codeArr (store w)) (length pre) c
               = (pre @ [c]) @ replicate (codeLength p - length (pre @ [c])) []"
    using inner Cons.prems(2) assign_after_prefix[of "codeLength p - length pre" pre c]
    by simp
  have w': "?w = \<lparr> store = \<lparr> codeArr = (pre @ [c]) @ replicate (codeLength p - length (pre @ [c])) [],
                               currentIndex = length (pre @ [c]) \<rparr>,
                    effects = effects w @ Focus (Suc (length pre))
                       # (if onCodeChange p then [OnCodeChange (join (pre @ [c]))] else []) \<rparr>"
    using fire_ChangeText_inner[OF inner Cons.prems(3), where c = c and lower = lower] arr join_replicate_empty[of "pre @ [c]"]
    by simp
  have "run lower p (typeInOrder (length (pre @ [c])) cs) ?w =
           \<lparr> store = \<lparr> codeArr = (pre @ [c]) @ cs @ replicate (codeLength p - length (pre @ [c]) - length cs) [],
                         currentIndex = length (pre @ [c]) + length cs \<rparr>,
             effects = effects ?w @ typingTrace p (pre @ [c]) cs \<rparr>"
  proof (rule Cons.IH)
    show "length (pre @ [c]) + length cs < codeLength p" using Cons.prems(1) by simp
    show "codeArr (store ?w) = (pre @ [c]) @ replicate (codeLength p - length (pre @ [c])) []"
      by (simp add: w')
    show "currentIndex (store ?w) = length (pre @ [c])" by (simp add: w')
  qed
  then show ?case by (simp add: w')
qed

lemma typingTrace_no_OnFulfill: "filter isOnFulfill (typingTrace p pre cs) = []"
  by (induction cs arbitrary: pre) simp_all

lemma typingTrace_no_Blur: "Blur i \<notin> set (typingTrace p pre cs)"
  by (induction cs arbitrary: pre) simp_all

lemma typingTrace_no_Focus_0: "Focus 0 \<notin> set (typingTrace p pre cs)"
  by (induction cs arbitrary: pre) simp_all

lemma run_typeInOrder_all_but_last:
  assumes "codeLength p = Suc (length cs)"
  shows "run lower p (typeInOrder 0 cs) (mount p) =
           \<lparr> store = \<lparr> codeArr = cs @ [[]], currentIndex = length cs \<rparr>,
             effects = typingTrace p [] cs \<rparr>"
  using run_typeInOrder_inner[where pre = "[]" and cs = cs and p = p and w = "mount p" and lower = lower] assms
  by (simp add: mount_def initialState_def)

lemma run_typeInOrder_accept:
  assumes "codeLength p = Suc (length cs)"
    and "compareWithCode p \<noteq> [] \<Longrightarrow> isMatchingCode lower (join (cs @ [c])) (compareWithCode p) (ignoreCase p)"
  shows "run lower p (typeInOrder 0 (cs @ [c])) (mount p) =
           \<lparr> store = \<lparr> codeArr = cs @ [c], currentIndex = Suc (length cs) \<rparr>,
             effects = typingTrace p [] cs
               @ (if onFulfill p
                  then [OnFulfill (join (cs @ [c]))
                          (if compareWithCode p = [] then None else Some True)]
                  else [])
               @ Blur (length cs)
               # (if onCodeChange p then [OnCodeChange (join (cs @ [c]))] else []) \<rparr>"
proof -
  let ?w = "run lower p (typeInOrder 0 cs) (mount p)"
  have w: "?w = \<lparr> store = \<lparr> codeArr = cs @ [[]], currentIndex = length cs \<rparr>,
                   effects = typingTrace p [] cs \<rparr>"
    by (rule run_typeInOrder_all_but_last[OF assms(1)])
  have "run lower p (typeInOrder 0 (cs @ [c])) (mount p) = fire lower p (ChangeText c (length cs)) ?w"
    by (simp add: typeInOrder_snoc run_append)
  also have "\<dots> = \<lparr> store = \<lparr> codeArr = cs @ [c], currentIndex = Suc (length cs) \<rparr>,
             effects = effects ?w
               @ (if onFulfill p
                  then [OnFulfill (join (cs @ [c]))
                          (if compareWithCode p = [] then None else Some True)]
                  else [])
               @ Blur (length cs)
               # (if onCodeChange p then [OnCodeChange (join (cs @ [c]))] else []) \<rparr>"
    by (rule fire_ChangeText_last_accept[OF assms(1) _ assms(2)]) (simp_all add: w)
  finally show ?thesis by (simp add: w)
qed

section \<open>The shape of the state\<close>

lemma partitioned_nth:
  "partitioned p s \<longleftrightarrow>
     currentIndex s < codeLength p \<and> length (codeArr s) = codeLength p
     \<and> (\<forall>i<codeLength p. (i < currentIndex s \<longrightarrow> codeArr s ! i \<noteq> [])
                        \<and> (currentIndex s \<le> i \<longrightarrow> codeArr s ! i = []))"
  (is "?l \<longleftrightarrow> ?r")
proof
  assume ?l
  then have a: "currentIndex s < codeLength p" "length (codeArr s) = codeLength p"
    and b: "\<forall>i<currentIndex s. codeArr s ! i \<noteq> []"
    and c: "\<forall>i<codeLength p - currentIndex s. codeArr s ! (currentIndex s + i) = []"
    by (auto simp: partitioned_def list_all_length)
  have "codeArr s ! i = []" if "currentIndex s \<le> i" "i < codeLength p" for i
    using c[rule_format, of "i - currentIndex s"] that by simp
  with a b show ?r by auto
next
  assume ?r
  then show ?l by (auto simp: partitioned_def list_all_length)
qed

lemma completed_nth:
  "completed p s \<longleftrightarrow>
     currentIndex s = codeLength p \<and> length (codeArr s) = codeLength p
     \<and> (\<forall>i<codeLength p. codeArr s ! i \<noteq> [])"
  by (auto simp: completed_def list_all_length)

lemma findIndex_partitioned:
  assumes "partitioned p s"
  shows "findIndex (\<lambda>c. c = []) (codeArr s) = int (currentIndex s)"
  using assms by (intro findIndex_first) (auto simp: partitioned_nth)

lemma findIndex_completed:
  assumes "completed p s"
  shows "findIndex (\<lambda>c. c = []) (codeArr s) = - 1"
  using assms by (intro findIndex_none) (auto simp: completed_nth in_set_conv_nth)

lemma store_onFocus_cleared:
  assumes "k < codeLength p" and "length (codeArr s) = codeLength p"
    and "\<forall>i<k. codeArr s ! i \<noteq> []"
  shows "partitioned p \<lparr> codeArr = clearFrom k 0 (codeArr s), currentIndex = k \<rparr>"
  using assms by (auto simp: partitioned_nth clearFrom_0 nth_append)

lemma focus_gives_partitioned:
  assumes "k < codeLength p" and "partitioned p (store w) \<or> completed p (store w)"
  shows "partitioned p (store (fire lower p (FocusGained k) w))"
  using assms(2)
proof
  assume part: "partitioned p (store w)"
  show ?thesis
  proof (cases "currentIndex (store w) < k")
    case True
    then have "store (fire lower p (FocusGained k) w) = store w"
      by (simp add: handler_defs findIndex_partitioned[OF part])
    with part show ?thesis by simp
  next
    case False
    then have "store (fire lower p (FocusGained k) w)
                 = \<lparr> codeArr = clearFrom k 0 (codeArr (store w)), currentIndex = k \<rparr>"
      by (simp add: handler_defs findIndex_partitioned[OF part])
    moreover have "partitioned p \<lparr> codeArr = clearFrom k 0 (codeArr (store w)), currentIndex = k \<rparr>"
      using part False by (intro store_onFocus_cleared[OF assms(1)]) (auto simp: partitioned_nth)
    ultimately show ?thesis by simp
  qed
next
  assume comp: "completed p (store w)"
  have "store (fire lower p (FocusGained k) w)
          = \<lparr> codeArr = clearFrom k 0 (codeArr (store w)), currentIndex = k \<rparr>"
    by (simp add: handler_defs findIndex_completed[OF comp])
  moreover have "partitioned p \<lparr> codeArr = clearFrom k 0 (codeArr (store w)), currentIndex = k \<rparr>"
    using comp assms(1) by (intro store_onFocus_cleared[OF assms(1)]) (auto simp: completed_nth)
  ultimately show ?thesis by simp
qed

lemma typing_gives_shape:
  assumes "orderly lower p (store w) (ChangeText c i)"
    and "partitioned p (store w) \<or> completed p (store w)"
  shows "if Suc i = codeLength p
         then completed p (store (fire lower p (ChangeText c i) w))
         else partitioned p (store (fire lower p (ChangeText c i) w))"
proof -
  from assms(1) have c: "c \<noteq> []" and i: "i = currentIndex (store w)" "i < codeLength p"
    and ok: "\<not> (Suc i = codeLength p \<and> compareWithCode p \<noteq> []
              \<and> \<not> isMatchingCode lower (join (assign (codeArr (store w)) i c))
                     (compareWithCode p) (ignoreCase p))"
    by (auto split: if_splits)
  from assms(2) i have part: "partitioned p (store w)" by (auto simp: completed_nth)
  have st: "store (fire lower p (ChangeText c i) w)
              = \<lparr> codeArr = (codeArr (store w))[i := c], currentIndex = Suc i \<rparr>"
    using store_fire_ChangeText_accept[OF ok] part i by (simp add: assign_def partitioned_nth)
  show ?thesis
  proof (cases "Suc i = codeLength p")
    case True
    then have "completed p (store (fire lower p (ChangeText c i) w))"
      unfolding st using part c i
      by (auto simp: completed_nth partitioned_nth nth_list_update)
    with True show ?thesis by simp
  next
    case False
    then have "partitioned p (store (fire lower p (ChangeText c i) w))"
      unfolding st using part c i
      by (auto simp: partitioned_nth nth_list_update)
    with False show ?thesis by simp
  qed
qed

lemma clear_gives_partitioned:
  assumes "0 < codeLength p"
  shows "partitioned p (store (fire lower p Clear w))"
  using assms by (simp add: handler_defs partitioned_nth)

lemma orderlyRun_snoc:
  "orderlyRun lower p w (evs @ [ev])
     = (orderlyRun lower p w evs \<and> orderly lower p (store (run lower p evs w)) ev)"
  by (induction evs arbitrary: w) simp_all

lemma keysOnlySinceCompletion_snoc:
  "keysOnlySinceCompletion p (evs @ [ev])
     = (case ev of
          KeyPress key \<Rightarrow> keysOnlySinceCompletion p evs
        | ChangeText c i \<Rightarrow> Suc i = codeLength p
        | _ \<Rightarrow> False)"
  by (cases ev) (simp_all add: keysOnlySinceCompletion_def)

lemma partitioned_not_completed: "partitioned p s \<Longrightarrow> \<not> completed p s"
  by (simp add: partitioned_def completed_def)

text \<open>
  Along an orderly session the store is completed exactly while only key presses have
  followed the text change of the last cell, and partitioned otherwise.
\<close>

lemma orderlyRun_shape:
  assumes "0 < codeLength p"
  shows "orderlyRun lower p (mount p) evs \<Longrightarrow>
         (if keysOnlySinceCompletion p evs
          then completed p (store (run lower p evs (mount p)))
          else partitioned p (store (run lower p evs (mount p))))"
proof (induction evs rule: rev_induct)
  case Nil
  have "partitioned p (store (mount p))"
    using assms by (simp add: mount_def initialState_def partitioned_nth)
  then show ?case by (simp add: keysOnlySinceCompletion_def)
next
  case (snoc ev evs)
  let ?w = "run lower p evs (mount p)"
  from snoc.prems have r: "orderlyRun lower p (mount p) evs"
    and o: "orderly lower p (store ?w) ev"
    by (simp_all add: orderlyRun_snoc)
  from snoc.IH[OF r] have shape: "partitioned p (store ?w) \<or> completed p (store ?w)"
    by (auto split: if_splits)
  have step: "run lower p (evs @ [ev]) (mount p) = fire lower p ev ?w"
    by (simp add: run_append)
  show ?case
  proof (cases ev)
    case (FocusGained k)
    from o have "k < codeLength p" unfolding FocusGained by simp
    from focus_gives_partitioned[OF this shape]
    show ?thesis unfolding step
      by (simp add: keysOnlySinceCompletion_snoc FocusGained)
  next
    case (ChangeText c i)
    from o have "orderly lower p (store ?w) (ChangeText c i)" unfolding ChangeText .
    from typing_gives_shape[OF this shape]
    show ?thesis unfolding step
      by (simp add: keysOnlySinceCompletion_snoc ChangeText)
  next
    case (KeyPress key)
    have "store (fire lower p (KeyPress key) ?w) = store ?w" by (simp add: handler_defs)
    with snoc.IH[OF r] show ?thesis unfolding step
      by (simp add: keysOnlySinceCompletion_snoc KeyPress)
  next
    case Clear
    from clear_gives_partitioned[OF assms, where w = ?w and lower = lower]
    show ?thesis unfolding step
      by (simp add: keysOnlySinceCompletion_snoc Clear)
  qed
qed

lemma mount_partitioned: "0 < codeLength p \<Longrightarrow> partitioned p (store (mount p))"
  by (simp add: mount_def initialState_def partitioned_nth)

lemma shape_filled_before:
  assumes "partitioned p s \<or> completed p s" and "n \<le> currentIndex s"
  shows "\<forall>j<n. j < codeLength p \<longrightarrow> codeArr s ! j \<noteq> []"
  using assms by (auto simp: partitioned_nth completed_nth)

lemma shape_length:
  assumes "partitioned p s \<or> completed p s"
  shows "length (codeArr s) = codeLength p" and "0 < codeLength p \<or> currentIndex s = 0"
  using assms by (auto simp: partitioned_nth completed_nth)

section \<open>The properties of the specification\<close>

subsection \<open>Completing the code with a failing comparison\<close>

text \<open>
  C1. With a comparison target of length 4, typing a fourth character that makes the code
  differ from the target calls \<open>onFulfill(code, false)\<close> and asks the host to focus
  cell 0 and to blur cell 3; the state store, however, is not reset: when the handler
  returns it holds the four characters just typed and the focus index 1. The run is
  target 1234, typed 1, 2, 3, 5, from the freshly mounted component, with
  \<open>ignoreCase\<close> off and for every lower-casing function of the runtime.
\<close>

theorem mismatch_reset_overwritten:
  "run lower (exampleProps 4 ''1234'' False) (typeInOrder 0 [''1'', ''2'', ''3'', ''5''])
     (mount (exampleProps 4 ''1234'' False))
   = \<lparr> store = \<lparr> codeArr = [''1'', ''2'', ''3'', ''5''], currentIndex = 1 \<rparr>,
       effects = [Focus 1, OnCodeChange ''1'', Focus 2, OnCodeChange ''12'', Focus 3,
                  OnCodeChange ''123'', OnFulfill ''1235'' (Some False), Focus 0, Blur 3,
                  OnCodeChange ''1235''] \<rparr>"
proof -
  have "\<not> ignoreCase (exampleProps 4 ''1234'' False)" by (simp add: exampleProps_def)
  then have "run lower (exampleProps 4 ''1234'' False) (typeInOrder 0 [''1'', ''2'', ''3'', ''5''])
               (mount (exampleProps 4 ''1234'' False))
             = run asciiLower (exampleProps 4 ''1234'' False)
                 (typeInOrder 0 [''1'', ''2'', ''3'', ''5''])
                 (mount (exampleProps 4 ''1234'' False))"
    by (rule run_lower_irrelevant)
  also have "\<dots> = \<lparr> store = \<lparr> codeArr = [''1'', ''2'', ''3'', ''5''], currentIndex = 1 \<rparr>,
       effects = [Focus 1, OnCodeChange ''1'', Focus 2, OnCodeChange ''12'', Focus 3,
                  OnCodeChange ''123'', OnFulfill ''1235'' (Some False), Focus 0, Blur 3,
                  OnCodeChange ''1235''] \<rparr>"
    by code_simp
  finally show ?thesis .
qed

text \<open>
  The store is emptied only if the host then raises the focus event of cell 0, whose
  handler clears every cell from 0 on.
\<close>

lemma mismatch_then_focus_resets:
  "store (run asciiLower (exampleProps 4 ''1234'' False)
       (typeInOrder 0 [''1'', ''2'', ''3'', ''5''] @ [FocusGained 0])
       (mount (exampleProps 4 ''1234'' False)))
     = \<lparr> codeArr = [[], [], [], []], currentIndex = 0 \<rparr>"
  by code_simp

subsection \<open>The cursor invariant\<close>

text \<open>
  C2, as amended. In every state reached from the initial all-empty state by an orderly
  session (a focus on a rendered cell, a non-empty text typed into the cell the focus
  index names and not failing the comparison when it completes the code, a key press, a
  call of clear): if the last cell has been filled and only key presses came since, all
  cells are non-empty and the focus index equals the code length; in every other case,
  so after any focus or clear, the focus index is the index of a cell, the cells before
  it are non-empty and the cells from it on are empty.
\<close>

theorem orderly_session_invariant:
  assumes "0 < codeLength p" and "orderlyRun lower p (mount p) evs"
  shows "if keysOnlySinceCompletion p evs
         then completed p (store (run lower p evs (mount p)))
         else partitioned p (store (run lower p evs (mount p)))"
  using orderlyRun_shape[OF assms] .

theorem orderly_session_invariant_witness:
  "orderlyRun asciiLower (exampleProps 3 [] False) (mount (exampleProps 3 [] False))
     [ChangeText ''4'' 0, ChangeText ''2'' 1, KeyPress ''Backspace'', FocusGained 1,
      ChangeText ''8'' 1]
   \<and> \<not> keysOnlySinceCompletion (exampleProps 3 [] False)
     [ChangeText ''4'' 0, ChangeText ''2'' 1, KeyPress ''Backspace'', FocusGained 1,
      ChangeText ''8'' 1]
   \<and> partitioned (exampleProps 3 [] False)
        (store (run asciiLower (exampleProps 3 [] False)
           [ChangeText ''4'' 0, ChangeText ''2'' 1, KeyPress ''Backspace'', FocusGained 1,
            ChangeText ''8'' 1]
           (mount (exampleProps 3 [] False))))
   \<and> orderlyRun asciiLower (exampleProps 3 [] False) (mount (exampleProps 3 [] False))
     [ChangeText ''4'' 0, ChangeText ''2'' 1, ChangeText ''6'' 2, KeyPress ''Backspace'']
   \<and> keysOnlySinceCompletion (exampleProps 3 [] False)
     [ChangeText ''4'' 0, ChangeText ''2'' 1, ChangeText ''6'' 2, KeyPress ''Backspace'']
   \<and> completed (exampleProps 3 [] False)
        (store (run asciiLower (exampleProps 3 [] False)
           [ChangeText ''4'' 0, ChangeText ''2'' 1, ChangeText ''6'' 2, KeyPress ''Backspace'']
           (mount (exampleProps 3 [] False))))"
proof -
  let ?p = "exampleProps 3 [] False"
  let ?a = "[ChangeText ''4'' 0, ChangeText ''2'' 1, KeyPress ''Backspace'', FocusGained 1,
             ChangeText ''8'' 1]"
  let ?b = "[ChangeText ''4'' 0, ChangeText ''2'' 1, ChangeText ''6'' 2,
             KeyPress ''Backspace'']"
  have len: "0 < codeLength ?p" by (simp add: exampleProps_def)
  have orda: "orderlyRun asciiLower ?p (mount ?p) ?a" by code_simp
  have ordb: "orderlyRun asciiLower ?p (mount ?p) ?b" by code_simp
  have ka: "\<not> keysOnlySinceCompletion ?p ?a" by code_simp
  have kb: "keysOnlySinceCompletion ?p ?b" by code_simp
  from orderly_session_invariant[OF len orda] ka
  have a: "partitioned ?p (store (run asciiLower ?p ?a (mount ?p)))" by (simp only: if_False)
  from orderly_session_invariant[OF len ordb] kb
  have b: "completed ?p (store (run asciiLower ?p ?b (mount ?p)))" by (simp only: if_True)
  from orda ka a ordb kb b show ?thesis by blast
qed

text \<open>
  The claim as stated, for every sequence of the four operations on rendered cells, fails:
  a text change of cell 1 while the focus index is 0 leaves cell 0 empty, cell 1 filled
  and the focus index 1, and the last cell has not been filled.
\<close>

theorem off_focus_entry_counterexample:
  "list_all (onCell (exampleProps 3 [] False)) [ChangeText ''7'' 1]
   \<and> store (run asciiLower (exampleProps 3 [] False) [ChangeText ''7'' 1] (mount (exampleProps 3 [] False)))
       = \<lparr> codeArr = [[], ''7'', []], currentIndex = 1 \<rparr>
   \<and> \<not> partitioned (exampleProps 3 [] False)
         (store (run asciiLower (exampleProps 3 [] False) [ChangeText ''7'' 1]
            (mount (exampleProps 3 [] False))))
   \<and> \<not> lastCellJustFilled (exampleProps 3 [] False) [ChangeText ''7'' 1]"
  by code_simp

text \<open>
  Each restriction of the orderly session is needed. After the code is completed the
  focus index equals the code length, and a Backspace key press leaves it there; an
  empty text advances the focus index over an empty cell; after a failed comparison the
  focus index is 1 over filled cells, and typing on from there keeps filled cells behind
  the focus index.
\<close>

lemma backspace_after_completion_breaks_range:
  "store (run asciiLower (exampleProps 3 [] False)
       (typeInOrder 0 [''4'', ''2'', ''8''] @ [KeyPress ''Backspace''])
       (mount (exampleProps 3 [] False)))
     = \<lparr> codeArr = [''4'', ''2'', ''8''], currentIndex = 3 \<rparr>
   \<and> \<not> lastCellJustFilled (exampleProps 3 [] False)
         (typeInOrder 0 [''4'', ''2'', ''8''] @ [KeyPress ''Backspace''])"
  by code_simp

lemma empty_text_breaks_partition:
  "store (run asciiLower (exampleProps 3 [] False) [ChangeText [] 0] (mount (exampleProps 3 [] False)))
     = \<lparr> codeArr = [[], [], []], currentIndex = 1 \<rparr>"
  by code_simp

lemma mismatch_then_typing_breaks_partition:
  "store (run asciiLower (exampleProps 3 ''428'' False)
       (typeInOrder 0 [''4'', ''2'', ''9''] @ [ChangeText ''5'' 1])
       (mount (exampleProps 3 ''428'' False)))
     = \<lparr> codeArr = [''4'', ''5'', ''9''], currentIndex = 2 \<rparr>"
  by code_simp

subsection \<open>Completing the code\<close>

text \<open>
  C3. For every code length of at least 1 and no comparison target, typing one string per
  cell in order from the mounted component calls \<open>onFulfill\<close> exactly once, with the
  concatenation of the strings in the order typed and without a match flag, asks the
  host to blur the last cell, and leaves the typed strings in the cells.
\<close>

theorem typing_all_cells_fulfills_once:
  assumes "cs \<noteq> []" and "codeLength p = length cs"
    and "compareWithCode p = []" and "onFulfill p"
  shows "filter isOnFulfill (effects (run lower p (typeInOrder 0 cs) (mount p)))
           = [OnFulfill (concat cs) None]
         \<and> Blur (length cs - 1) \<in> set (effects (run lower p (typeInOrder 0 cs) (mount p)))
         \<and> codeArr (store (run lower p (typeInOrder 0 cs) (mount p))) = cs"
proof -
  from assms(1) obtain xs c where cs: "cs = xs @ [c]"
    by (cases cs rule: rev_cases) auto
  have len: "codeLength p = Suc (length xs)" using assms(2) cs by simp
  show ?thesis
    unfolding cs using run_typeInOrder_accept[OF len, where c = c and lower = lower] assms(3,4)
    by (simp add: typingTrace_no_OnFulfill join_def)
qed

theorem typing_all_cells_fulfills_once_witness:
  "filter isOnFulfill
     (effects (run asciiLower (exampleProps 3 [] False) (typeInOrder 0 [''7'', ''0'', ''9''])
                 (mount (exampleProps 3 [] False))))
     = [OnFulfill ''709'' None]
   \<and> Blur 2 \<in> set (effects (run asciiLower (exampleProps 3 [] False) (typeInOrder 0 [''7'', ''0'', ''9''])
                 (mount (exampleProps 3 [] False))))"
  using typing_all_cells_fulfills_once[where cs = "[''7'', ''0'', ''9'']"
      and p = "exampleProps 3 [] False" and lower = asciiLower]
  by (simp add: exampleProps_def numeral_2_eq_2)

text \<open>
  C4. With a comparison target as long as the code, typing in order a sequence whose
  concatenation equals the target (the strings themselves when \<open>ignoreCase\<close> is off,
  their lower-cased forms when it is on) calls \<open>onFulfill\<close> exactly once, with the
  code and the flag true, and leaves the typed cells in the store: no reset is queued
  and cell 0 is never asked to take the focus. This holds for every lower-casing
  function \<open>lower\<close>, so for the one of the runtime whatever letters it folds.
\<close>

theorem matching_code_fulfills_true:
  assumes "cs \<noteq> []" and "codeLength p = length cs"
    and "length (compareWithCode p) = codeLength p" and "onFulfill p"
    and "if ignoreCase p then lower (concat cs) = lower (compareWithCode p)
         else concat cs = compareWithCode p"
  shows "filter isOnFulfill (effects (run lower p (typeInOrder 0 cs) (mount p)))
           = [OnFulfill (concat cs) (Some True)]
         \<and> store (run lower p (typeInOrder 0 cs) (mount p))
           = \<lparr> codeArr = cs, currentIndex = length cs \<rparr>
         \<and> Focus 0 \<notin> set (effects (run lower p (typeInOrder 0 cs) (mount p)))"
proof -
  from assms(1) obtain xs c where cs: "cs = xs @ [c]"
    by (cases cs rule: rev_cases) auto
  have len: "codeLength p = Suc (length xs)" using assms(2) cs by simp
  have target: "compareWithCode p \<noteq> []" using assms(3) len by auto
  have m: "isMatchingCode lower (join (xs @ [c])) (compareWithCode p) (ignoreCase p)"
    using assms(5) cs by (simp add: isMatchingCode_def join_def split: if_splits)
  show ?thesis
    unfolding cs using run_typeInOrder_accept[OF len, where c = c and lower = lower] m target assms(4)
    by (simp add: typingTrace_no_OnFulfill typingTrace_no_Focus_0 join_def)
qed

theorem matching_code_fulfills_true_witness:
  "filter isOnFulfill
     (effects (run asciiLower (exampleProps 4 ''ABCD'' True) (typeInOrder 0 [''a'', ''b'', ''c'', ''d''])
                 (mount (exampleProps 4 ''ABCD'' True))))
     = [OnFulfill ''abcd'' (Some True)]
   \<and> store (run asciiLower (exampleProps 4 ''ABCD'' True) (typeInOrder 0 [''a'', ''b'', ''c'', ''d''])
                 (mount (exampleProps 4 ''ABCD'' True)))
     = \<lparr> codeArr = [''a'', ''b'', ''c'', ''d''], currentIndex = 4 \<rparr>"
  using matching_code_fulfills_true[where cs = "[''a'', ''b'', ''c'', ''d'']"
      and p = "exampleProps 4 ''ABCD'' True" and lower = asciiLower]
  by (simp add: exampleProps_def asciiLower_def asciiLowerChar_def)

subsection \<open>Entering a character before the last cell\<close>

text \<open>
  C5, as amended. For every cell index below the last one, a text change of that cell
  while the focus index equals that index writes the text into the cell, moves the focus
  index to the next cell and asks the host to focus the next cell.
\<close>

theorem enter_at_focus_advances:
  assumes "Suc index < codeLength p" and "currentIndex (store w) = index"
    and "length (codeArr (store w)) = codeLength p"
  shows "store (fire lower p (ChangeText c index) w)
           = \<lparr> codeArr = (codeArr (store w))[index := c], currentIndex = index + 1 \<rparr>
         \<and> filter isHostRequest (effects (fire lower p (ChangeText c index) w))
           = filter isHostRequest (effects w) @ [Focus (index + 1)]"
  using assms fire_ChangeText_inner[OF assms(1,2), where c = c and lower = lower] by (simp add: assign_def)

theorem enter_at_focus_advances_witness:
  "store (fire asciiLower (exampleProps 4 [] False) (ChangeText ''7'' 0) (mount (exampleProps 4 [] False)))
     = \<lparr> codeArr = [''7'', [], [], []], currentIndex = 1 \<rparr>
   \<and> filter isHostRequest (effects (fire asciiLower (exampleProps 4 [] False) (ChangeText ''7'' 0)
        (mount (exampleProps 4 [] False)))) = [Focus 1]"
  using enter_at_focus_advances[where index = 0 and p = "exampleProps 4 [] False"
      and w = "mount (exampleProps 4 [] False)" and c = "''7''" and lower = asciiLower]
  by (simp add: exampleProps_def mount_def initialState_def eval_nat_numeral)

text \<open>
  Without the condition on the focus index the claim fails: the handler advances from the
  stored focus index, not from the cell that changed. A text change of cell 2 of a
  freshly mounted four-cell component moves the focus index to 1 and asks for the focus
  on cell 1, not 3.
\<close>

theorem enter_off_focus_counterexample:
  "store (fire asciiLower (exampleProps 4 [] False) (ChangeText ''7'' 2) (mount (exampleProps 4 [] False)))
     = \<lparr> codeArr = [[], [], ''7'', []], currentIndex = 1 \<rparr>
   \<and> effects (fire asciiLower (exampleProps 4 [] False) (ChangeText ''7'' 2) (mount (exampleProps 4 [] False)))
     = [Focus 1, OnCodeChange ''7'']
   \<and> currentIndex (store (fire asciiLower (exampleProps 4 [] False) (ChangeText ''7'' 2)
        (mount (exampleProps 4 [] False)))) \<noteq> 2 + 1
   \<and> Focus (2 + 1) \<notin> set (effects (fire asciiLower (exampleProps 4 [] False) (ChangeText ''7'' 2)
        (mount (exampleProps 4 [] False))))"
  by code_simp

subsection \<open>The focus handler\<close>

text \<open>
  C6, as amended. A focus event of cell k while an earlier cell is empty asks the host to
  focus the first empty cell instead and leaves the store as it is; when no earlier cell
  is empty it empties every cell from k on and sets the focus index to k, and asks
  nothing of the host.
\<close>

theorem focus_redirects_or_clears:
  assumes "length (codeArr (store w)) = codeLength p"
  shows "(j < k \<and> j < codeLength p \<and> codeArr (store w) ! j = []
            \<and> (\<forall>i<j. codeArr (store w) ! i \<noteq> [])
          \<longrightarrow> store (fire lower p (FocusGained k) w) = store w
              \<and> effects (fire lower p (FocusGained k) w) = effects w @ [Focus j])
       \<and> ((\<forall>j<k. j < codeLength p \<longrightarrow> codeArr (store w) ! j \<noteq> [])
          \<longrightarrow> store (fire lower p (FocusGained k) w)
                = \<lparr> codeArr = take k (codeArr (store w)) @ replicate (codeLength p - k) [],
                    currentIndex = k \<rparr>
              \<and> effects (fire lower p (FocusGained k) w) = effects w)"
  using focus_step_redirects[OF assms, where j = j and k = k and lower = lower]
    focus_step_clears[OF assms, where k = k and lower = lower]
  by simp

theorem focus_redirects_or_clears_witness:
  "fire asciiLower (exampleProps 4 [] False) (FocusGained 3)
     \<lparr> store = \<lparr> codeArr = [''4'', ''2'', [], []], currentIndex = 2 \<rparr>, effects = [] \<rparr>
   = \<lparr> store = \<lparr> codeArr = [''4'', ''2'', [], []], currentIndex = 2 \<rparr>,
       effects = [Focus 2] \<rparr>
   \<and> fire asciiLower (exampleProps 4 [] False) (FocusGained 1)
     \<lparr> store = \<lparr> codeArr = [''4'', ''2'', [], []], currentIndex = 2 \<rparr>, effects = [] \<rparr>
   = \<lparr> store = \<lparr> codeArr = [''4'', [], [], []], currentIndex = 1 \<rparr>, effects = [] \<rparr>"
proof -
  let ?p = "exampleProps 4 [] False"
  let ?w = "\<lparr> store = \<lparr> codeArr = [''4'', ''2'', [], []], currentIndex = 2 \<rparr>,
             effects = [] \<rparr>"
  have L: "codeLength ?p = 4" by (simp add: exampleProps_def)
  have len: "length (codeArr (store ?w)) = codeLength ?p" by (simp add: L)
  have r: "(2::nat) < 3 \<and> 2 < codeLength ?p \<and> codeArr (store ?w) ! 2 = []
            \<and> (\<forall>i<2. codeArr (store ?w) ! i \<noteq> [])"
    by (simp add: L less_Suc_eq numeral_2_eq_2)
  have c: "\<forall>j<1. j < codeLength ?p \<longrightarrow> codeArr (store ?w) ! j \<noteq> []"
    by (simp add: L)
  from focus_redirects_or_clears[OF len, where j = 2 and k = 3 and lower = asciiLower] r
  have 1: "store (fire asciiLower ?p (FocusGained 3) ?w) = store ?w"
       "effects (fire asciiLower ?p (FocusGained 3) ?w) = effects ?w @ [Focus 2]" by blast+
  from focus_redirects_or_clears[OF len, where j = 0 and k = 1 and lower = asciiLower] c
  have 2: "store (fire asciiLower ?p (FocusGained 1) ?w)
            = \<lparr> codeArr = take 1 (codeArr (store ?w)) @ replicate (codeLength ?p - 1) [],
                currentIndex = 1 \<rparr>"
       "effects (fire asciiLower ?p (FocusGained 1) ?w) = effects ?w" by blast+
  have 3: "fire asciiLower ?p (FocusGained 3) ?w
        = \<lparr> store = store (fire asciiLower ?p (FocusGained 3) ?w),
             effects = effects (fire asciiLower ?p (FocusGained 3) ?w) \<rparr>" by simp
  have 4: "fire asciiLower ?p (FocusGained 1) ?w
        = \<lparr> store = store (fire asciiLower ?p (FocusGained 1) ?w),
             effects = effects (fire asciiLower ?p (FocusGained 1) ?w) \<rparr>" by simp
  show ?thesis
    by (subst 3, subst 4, unfold 1 2 L) (simp add: eval_nat_numeral)
qed

text \<open>
  The claim as stated has the handler ask for the focus on k in the second case. It does
  not: with cells 0 and 1 filled, the focus event of cell 1 empties cell 1 and makes no
  request.
\<close>

theorem focus_no_request_counterexample:
  "fire asciiLower (exampleProps 4 [] False) (FocusGained 1)
     \<lparr> store = \<lparr> codeArr = [''4'', ''2'', [], []], currentIndex = 2 \<rparr>, effects = [] \<rparr>
   = \<lparr> store = \<lparr> codeArr = [''4'', [], [], []], currentIndex = 1 \<rparr>, effects = [] \<rparr>
   \<and> Focus 1 \<notin> set (effects (fire asciiLower (exampleProps 4 [] False) (FocusGained 1)
        \<lparr> store = \<lparr> codeArr = [''4'', ''2'', [], []], currentIndex = 2 \<rparr>,
          effects = [] \<rparr>))"
  by code_simp

subsection \<open>The Backspace key\<close>

text \<open>
  C7, as amended. In a state of the shape above with focus index i, a Backspace key press
  computes a copy of the cells with the positions from max(i - 1, 0) on emptied, calls
  \<open>onCodeChange\<close> with its join, and asks the host to focus cell max(i - 1, 0); the
  store it leaves as it found it. The cells of the store are emptied from that position,
  and the focus index moved to it, by the focus event of that cell that follows.
\<close>

theorem backspace_reports_then_focus_clears:
  assumes "partitioned p (store w) \<or> completed p (store w)"
    and "0 < codeLength p" and "onCodeChange p"
    and "n = nat (max (int (currentIndex (store w)) - 1) 0)"
  shows "effects (fire lower p (KeyPress ''Backspace'') w)
           = effects w
             @ [OnCodeChange (join (take n (codeArr (store w)) @ replicate (codeLength p - n) [])),
                Focus n]
         \<and> store (fire lower p (KeyPress ''Backspace'') w) = store w
         \<and> store (fire lower p (FocusGained n) (fire lower p (KeyPress ''Backspace'') w))
           = \<lparr> codeArr = take n (codeArr (store w)) @ replicate (codeLength p - n) [],
               currentIndex = n \<rparr>"
proof -
  have n: "n = currentIndex (store w) - 1" using assms(4) by simp
  have len: "length (codeArr (store w)) = codeLength p"
    using shape_length(1)[OF assms(1)] .
  have idx: "currentIndex (store w) \<le> codeLength p"
    using assms(1) by (auto simp: partitioned_nth completed_nth)
  then have lt: "n < codeLength p" using assms(2) n by simp
  let ?w = "fire lower p (KeyPress ''Backspace'') w"
  have st: "store ?w = store w" by (simp add: fire_Backspace)
  have eff: "effects ?w = effects w
             @ [OnCodeChange (join (take n (codeArr (store w)) @ replicate (codeLength p - n) [])),
                Focus n]"
    using lt assms(3) unfolding n by (simp add: fire_Backspace clearFrom_0 len)
  have before: "\<forall>j<n. j < codeLength p \<longrightarrow> codeArr (store ?w) ! j \<noteq> []"
    unfolding st by (rule shape_filled_before[OF assms(1)]) (simp add: n)
  have "length (codeArr (store ?w)) = codeLength p" by (simp add: st len)
  from focus_step_clears[OF this before]
  have "store (fire lower p (FocusGained n) ?w)
           = \<lparr> codeArr = take n (codeArr (store w)) @ replicate (codeLength p - n) [],
               currentIndex = n \<rparr>" by (simp add: st)
  with st eff show ?thesis by simp
qed

theorem backspace_reports_then_focus_clears_witness:
  "effects (fire asciiLower (exampleProps 4 [] False) (KeyPress ''Backspace'')
       \<lparr> store = \<lparr> codeArr = [''4'', ''2'', [], []], currentIndex = 2 \<rparr>, effects = [] \<rparr>)
     = [OnCodeChange ''4'', Focus 1]
   \<and> store (fire asciiLower (exampleProps 4 [] False) (KeyPress ''Backspace'')
       \<lparr> store = \<lparr> codeArr = [''4'', ''2'', [], []], currentIndex = 2 \<rparr>, effects = [] \<rparr>)
     = \<lparr> codeArr = [''4'', ''2'', [], []], currentIndex = 2 \<rparr>
   \<and> store (fire asciiLower (exampleProps 4 [] False) (FocusGained 1)
       (fire asciiLower (exampleProps 4 [] False) (KeyPress ''Backspace'')
          \<lparr> store = \<lparr> codeArr = [''4'', ''2'', [], []], currentIndex = 2 \<rparr>, effects = [] \<rparr>))
     = \<lparr> codeArr = [''4'', [], [], []], currentIndex = 1 \<rparr>"
proof -
  let ?p = "exampleProps 4 [] False"
  let ?w = "\<lparr> store = \<lparr> codeArr = [''4'', ''2'', [], []], currentIndex = 2 \<rparr>,
             effects = [] \<rparr>"
  have L: "codeLength ?p = 4" and cb: "onCodeChange ?p" by (simp_all add: exampleProps_def)
  have shape: "partitioned ?p (store ?w) \<or> completed ?p (store ?w)"
    by (simp add: partitioned_def L)
  have pos: "0 < codeLength ?p" by (simp add: L)
  have n: "(1::nat) = nat (max (int (currentIndex (store ?w)) - 1) 0)" by simp
  from backspace_reports_then_focus_clears[OF shape pos cb n]
  show ?thesis unfolding L by (simp add: join_def eval_nat_numeral)
qed

text \<open>
  The claim as stated has the key press clear the cells. After typing two of four cells
  and pressing Backspace, cell 1 of the store is still filled and the focus index still 2.
\<close>

theorem backspace_store_counterexample:
  "store (fire asciiLower (exampleProps 4 [] False) (KeyPress ''Backspace'')
       (run asciiLower (exampleProps 4 [] False) (typeInOrder 0 [''4'', ''2''])
          (mount (exampleProps 4 [] False))))
     = \<lparr> codeArr = [''4'', ''2'', [], []], currentIndex = 2 \<rparr>
   \<and> codeArr (store (fire asciiLower (exampleProps 4 [] False) (KeyPress ''Backspace'')
       (run asciiLower (exampleProps 4 [] False) (typeInOrder 0 [''4'', ''2''])
          (mount (exampleProps 4 [] False))))) ! 1 \<noteq> []"
  by code_simp

text \<open>
  C9. The key-press handler never writes to the state store: whatever the key, the
  captured state and the world, the stored cells and the stored focus index are the
  ones it found. For Backspace it only reports the join of the cleared copy to
  \<open>onCodeChange\<close> and asks the host to focus the previous cell.
\<close>

theorem onKeyPress_store_unchanged:
  "store (onKeyPress p state key w) = store w
   \<and> store (fire lower p (KeyPress key) w) = store w
   \<and> effects (onKeyPress p state ''Backspace'' w)
       = effects w
         @ (if onCodeChange p
            then [OnCodeChange (join (clearFrom (currentIndex state - 1) 0 (codeArr state)))]
            else [])
         @ (if currentIndex state - 1 < codeLength p
            then [Focus (currentIndex state - 1)] else [])"
  by (simp add: onKeyPress_def setFocus_def emit_def fire_def Let_def)

subsection \<open>The change callback\<close>

text \<open>
  C8, as amended. With \<open>onCodeChange\<close> supplied, every text change calls it exactly
  once, with the join of the cells the handler stores, and every Backspace key press
  calls it exactly once, with the join of the cells before the previous position; empty
  cells add nothing to a join. With four cells and no comparison target, typing 1, 2, 3,
  4 in order makes the calls onCodeChange 1, 12, 123, then onFulfill 1234, then
  onCodeChange 1234: the completion callback comes before the fourth change callback.
\<close>

theorem onCodeChange_once_per_entry_and_backspace:
  assumes "onCodeChange p"
  shows "filter isOnCodeChange (effects (fire lower p (ChangeText c i) w))
           = filter isOnCodeChange (effects w)
             @ [OnCodeChange (join (codeArr (store (fire lower p (ChangeText c i) w))))]
         \<and> codeArr (store (fire lower p (ChangeText c i) w)) = assign (codeArr (store w)) i c
         \<and> filter isOnCodeChange (effects (fire lower p (KeyPress ''Backspace'') w))
           = filter isOnCodeChange (effects w)
             @ [OnCodeChange (join (take (currentIndex (store w) - 1) (codeArr (store w))))]
         \<and> join xs = concat (filter (\<lambda>c. c \<noteq> []) xs)
         \<and> filter isCallback
             (effects (run asciiLower (exampleProps 4 [] False) (typeInOrder 0 [''1'', ''2'', ''3'', ''4''])
                         (mount (exampleProps 4 [] False))))
           = [OnCodeChange ''1'', OnCodeChange ''12'', OnCodeChange ''123'',
              OnFulfill ''1234'' None, OnCodeChange ''1234'']"
proof -
  have ex: "filter isCallback
             (effects (run asciiLower (exampleProps 4 [] False) (typeInOrder 0 [''1'', ''2'', ''3'', ''4''])
                         (mount (exampleProps 4 [] False))))
           = [OnCodeChange ''1'', OnCodeChange ''12'', OnCodeChange ''123'',
              OnFulfill ''1234'' None, OnCodeChange ''1234'']"
    by code_simp
  have bs: "filter isOnCodeChange (effects (fire lower p (KeyPress ''Backspace'') w))
           = filter isOnCodeChange (effects w)
             @ [OnCodeChange (join (take (currentIndex (store w) - 1) (codeArr (store w))))]"
    using assms by (simp add: fire_Backspace clearFrom_0 join_replicate_empty)
  show ?thesis
    using assms fire_ChangeText_reports[of lower p c i w]
      fire_ChangeText_codeArr[of lower p c i w]
      bs join_skips_empty[of xs] ex
    by simp
qed

theorem onCodeChange_once_per_entry_and_backspace_witness:
  "filter isOnCodeChange
     (effects (fire asciiLower (exampleProps 4 [] False) (ChangeText ''9'' 2)
        \<lparr> store = \<lparr> codeArr = [''4'', ''2'', [], []], currentIndex = 2 \<rparr>, effects = [] \<rparr>))
     = [OnCodeChange ''429'']
   \<and> filter isOnCodeChange
     (effects (fire asciiLower (exampleProps 4 [] False) (KeyPress ''Backspace'')
        \<lparr> store = \<lparr> codeArr = [''4'', ''2'', [], []], currentIndex = 2 \<rparr>, effects = [] \<rparr>))
     = [OnCodeChange ''4'']"
proof -
  have cb: "onCodeChange (exampleProps 4 [] False)" by (simp add: exampleProps_def)
  from onCodeChange_once_per_entry_and_backspace[OF cb, where lower = asciiLower
      and c = "''9''" and i = 2 and w =
      "\<lparr> store = \<lparr> codeArr = [''4'', ''2'', [], []], currentIndex = 2 \<rparr>, effects = [] \<rparr>"]
  show ?thesis by (simp add: join_def assign_def eval_nat_numeral)
qed

text \<open>
  The order the claim gives, the four change callbacks and then the completion callback,
  is not the order of the calls.
\<close>

theorem fulfill_before_last_change_counterexample:
  "filter isCallback
     (effects (run asciiLower (exampleProps 4 [] False) (typeInOrder 0 [''1'', ''2'', ''3'', ''4''])
                 (mount (exampleProps 4 [] False))))
   \<noteq> [OnCodeChange ''1'', OnCodeChange ''12'', OnCodeChange ''123'', OnCodeChange ''1234'',
       OnFulfill ''1234'' None]"
  by code_simp

subsection \<open>An empty comparison target\<close>

text \<open>
  C10. When the comparison target is the empty string, a text change of the last cell
  calls \<open>onFulfill\<close> with the code and no match flag, queues no reset (the store gets
  the cells with the text written and the focus index advanced by one) and asks only for
  a blur. A missing target is destructured to the empty string, so supplying the empty
  string and supplying nothing give the same props, and the length check of the props
  reports nothing.
\<close>

theorem empty_target_is_no_target:
  assumes "compareWithCode p = []" and "Suc index = codeLength p" and "onFulfill p"
  shows "fire lower p (ChangeText c index) w
           = \<lparr> store = \<lparr> codeArr = assign (codeArr (store w)) index c,
                         currentIndex = currentIndex (store w) + 1 \<rparr>,
               effects = effects w
                 @ [OnFulfill (join (assign (codeArr (store w)) index c)) None]
                 @ (if currentIndex (store w) < codeLength p
                    then [Blur (currentIndex (store w))] else [])
                 @ (if onCodeChange p
                    then [OnCodeChange (join (assign (codeArr (store w)) index c))] else []) \<rparr>
         \<and> destructure (pp\<lparr>compareWithCode_opt := Some []\<rparr>)
           = destructure (pp\<lparr>compareWithCode_opt := None\<rparr>)
         \<and> compareWithCode (destructure (pp\<lparr>compareWithCode_opt := None\<rparr>)) = []
         \<and> ConsoleError ''Invalid props: compareWith length is not equal to codeLength''
             \<notin> set (checkProps p)"
proof -
  have eq: "(int index = int (codeLength p) - 1)" using assms(2) by auto
  have "fire lower p (ChangeText c index) w
           = \<lparr> store = \<lparr> codeArr = assign (codeArr (store w)) index c,
                         currentIndex = currentIndex (store w) + 1 \<rparr>,
               effects = effects w
                 @ [OnFulfill (join (assign (codeArr (store w)) index c)) None]
                 @ (if currentIndex (store w) < codeLength p
                    then [Blur (currentIndex (store w))] else [])
                 @ (if onCodeChange p
                    then [OnCodeChange (join (assign (codeArr (store w)) index c))] else []) \<rparr>"
    using assms(1,3) eq by (simp add: handler_defs)
  moreover have "ConsoleError ''Invalid props: compareWith length is not equal to codeLength''
             \<notin> set (checkProps p)"
    using assms(1) by (simp add: checkProps_def)
  ultimately show ?thesis by (simp add: destructure_def)
qed

theorem empty_target_is_no_target_witness:
  "fire asciiLower (exampleProps 2 [] False) (ChangeText ''9'' 1)
     \<lparr> store = \<lparr> codeArr = [''4'', []], currentIndex = 1 \<rparr>, effects = [] \<rparr>
   = \<lparr> store = \<lparr> codeArr = [''4'', ''9''], currentIndex = 2 \<rparr>,
       effects = [OnFulfill ''49'' None, Blur 1, OnCodeChange ''49''] \<rparr>
   \<and> checkProps (exampleProps 2 [] False) = []"
proof -
  let ?p = "exampleProps 2 [] False"
  have a: "compareWithCode ?p = []" "Suc 1 = codeLength ?p" "onFulfill ?p"
    by (simp_all add: exampleProps_def)
  have c: "checkProps ?p = []" by (simp add: checkProps_def exampleProps_def)
  from empty_target_is_no_target[OF a, where lower = asciiLower and c = "''9''" and w =
      "\<lparr> store = \<lparr> codeArr = [''4'', []], currentIndex = 1 \<rparr>, effects = [] \<rparr>"] c
  show ?thesis by (simp add: join_def assign_def exampleProps_def)
qed

end
